theory Spec2Isabelle
  imports Main
begin

section \<open>Data model (models.ts)\<close>

text \<open>
  \<^verbatim>\<open>class Contact { id: number; name: string }\<close>.
  The field \<open>id\<close> is called \<open>ident\<close> here, since \<open>id\<close> is the identity function of HOL.
  An id is an integer-valued JavaScript \<open>number\<close> (an IEEE double), modelled by the integer
  it holds. Comparison and \<^verbatim>\<open>Math.max\<close> are exact on these; the one arithmetic operation of
  the program, \<^verbatim>\<open>maxId + 1\<close>, rounds beyond \<open>2^53\<close> and is modelled with its rounding
  (\<open>plus_one\<close> below). Fractions and infinities are outside the model; \<open>NaN\<close> is modelled
  where the dispatcher tests for it (type \<open>number\<close> below).
  A \<open>string\<close> is a list of 8-bit characters, read as the code units below 256.
\<close>

record contact =
  ident :: int
  name :: string

text \<open>
  What \<^verbatim>\<open>jsonfile.readFile\<close> resolves to and what \<^verbatim>\<open>jsonfile.writeFile\<close> is given:
  a JSON value. The library itself (text layout, \<^verbatim>\<open>JSON.parse\<close>, \<^verbatim>\<open>JSON.stringify\<close>)
  is not part of the repository; the file is modelled by the value it holds.
\<close>

datatype json =
    JNull
  | JBool bool
  | JNum int
  | JStr string
  | JArr "json list"
  | JObj "(string \<times> json) list"

text \<open>
  The errors thrown in the program. \<open>SystemError code\<close> is a Node file-system error with its
  \<open>code\<close> property; \<open>SyntaxError\<close> is what \<^verbatim>\<open>JSON.parse\<close> throws (it has no \<open>code\<close>);
  \<open>TypeError\<close> is a property read on \<open>null\<close>; \<open>NotFound i\<close> is
  \<^verbatim>\<open>new Error(`Contact with ID ${id} not found.`)\<close>; \<open>InvalidName\<close> is
  \<^verbatim>\<open>new Error("Missing or invalid 'name' for save action.")\<close>.
\<close>

datatype js_error =
    SystemError string
  | SyntaxError
  | TypeError
  | NotFound int
  | InvalidName

fun code :: "js_error \<Rightarrow> string option" where
  "code (SystemError c) = Some c"
| "code _ = None"

text \<open>
  The backing file \<^verbatim>\<open>contacts.json\<close>: absent, holding a JSON value, or present but such
  that reading it fails with the given error (no permission, a directory, text that is not JSON).
\<close>

datatype disk = Absent | Content json | Unreadable js_error

fun readFile :: "disk \<Rightarrow> js_error + json" where
  "readFile Absent = Inl (SystemError ''ENOENT'')"
| "readFile (Content j) = Inr j"
| "readFile (Unreadable e) = Inl e"

text \<open>
  Whether a write succeeds is decided by the environment: \<open>WriteOk\<close>, or
  \<open>WriteFails e d\<close> where \<open>e\<close> is the error and \<open>d\<close> the state the file is left in.
\<close>

datatype write_outcome = WriteOk | WriteFails js_error disk

datatype io_call = ReadFile | WriteFile json

text \<open>
  The state: the cache \<^verbatim>\<open>this.contacts\<close> of the one \<^verbatim>\<open>ContactsCollection\<close>, the backing
  file, and the file operations issued so far (console output is not modelled).
\<close>

record world =
  contacts :: "contact list"
  backing :: disk
  io_log :: "io_call list"

type_synonym 'a result = "(js_error + 'a) \<times> world"

text \<open>
  A new \<^verbatim>\<open>ContactsCollection\<close> over the file \<open>d\<close>, before any file operation:
  \<^verbatim>\<open>private contacts: Contact[] = []\<close>.
\<close>

definition new_collection :: "disk \<Rightarrow> world" where
  "new_collection d = \<lparr>contacts = [], backing = d, io_log = []\<rparr>"

section \<open>The record store (class ContactsCollection)\<close>

subsection \<open>load\<close>

text \<open>
  \<^verbatim>\<open>new Contact(item.id, item.name)\<close> for one element of the parsed array. Reading a
  property of \<open>null\<close> throws a \<open>TypeError\<close>. An object with a numeric \<open>id\<close> and a string
  \<open>name\<close> gives a \<open>Contact\<close>. Any other element gives, in the source, an object whose fields
  are not a number and a string: such an object is outside the typed record, \<open>IllTyped\<close>.
\<close>

datatype item_result = Typed contact | Throws js_error | IllTyped

fun new_Contact_of :: "json \<Rightarrow> item_result" where
  "new_Contact_of JNull = Throws TypeError"
| "new_Contact_of (JObj fs) =
     (case (map_of fs ''id'', map_of fs ''name'') of
        (Some (JNum n), Some (JStr s)) \<Rightarrow> Typed \<lparr>ident = n, name = s\<rparr>
      | _ \<Rightarrow> IllTyped)"
| "new_Contact_of _ = IllTyped"

text \<open>
  \<^verbatim>\<open>data.map((item: any) => new Contact(item.id, item.name))\<close>: \<open>Some (Inr cs)\<close> the contacts,
  \<open>Some (Inl e)\<close> when an element throws, \<open>None\<close> when no element throws and some element is
  ill-typed (the source then returns normally, with objects outside this model).
\<close>

fun map_items :: "json list \<Rightarrow> (js_error + contact list) option" where
  "map_items [] = Some (Inr [])"
| "map_items (x # xs) =
     (case new_Contact_of x of
        Throws e \<Rightarrow> Some (Inl e)
      | Typed c \<Rightarrow>
          (case map_items xs of
             Some (Inr cs) \<Rightarrow> Some (Inr (c # cs))
           | r \<Rightarrow> r)
      | IllTyped \<Rightarrow>
          (case map_items xs of
             Some (Inl e) \<Rightarrow> Some (Inl e)
           | _ \<Rightarrow> None))"

text \<open>
  The outcome of \<open>load\<close>: it returns (\<open>Loaded\<close>), it throws (\<open>Rejected\<close>), or it returns with
  contacts outside the typed model (\<open>Untyped\<close>).
\<close>

datatype load_outcome = Loaded world | Rejected js_error world | Untyped

text \<open>\<^verbatim>\<open>Array.isArray(data)\<close>, and the elements of an array.\<close>

fun isArray :: "json \<Rightarrow> bool" where
  "isArray (JArr items) = True"
| "isArray _ = False"

fun elements :: "json \<Rightarrow> json list" where
  "elements (JArr items) = items"
| "elements _ = []"

text \<open>
  The \<^verbatim>\<open>try\<close> block covers the read and the \<^verbatim>\<open>map\<close>; the \<^verbatim>\<open>catch\<close> block tests
  \<^verbatim>\<open>error.code === 'ENOENT'\<close> on whatever was thrown.
\<close>

definition catch_load :: "js_error \<Rightarrow> world \<Rightarrow> load_outcome" where
  "catch_load error w =
     (if code error = Some ''ENOENT'' then Loaded (w\<lparr>contacts := []\<rparr>)
      else Rejected error w)"

definition load :: "world \<Rightarrow> load_outcome" where
  "load w =
     (let w1 = w\<lparr>io_log := io_log w @ [ReadFile]\<rparr> in
      case readFile (backing w) of
        Inl error \<Rightarrow> catch_load error w1
      | Inr data \<Rightarrow>
          (if isArray data then
             (case map_items (elements data) of
                Some (Inr cs) \<Rightarrow> Loaded (w1\<lparr>contacts := cs\<rparr>)
              | Some (Inl error) \<Rightarrow> catch_load error w1
              | None \<Rightarrow> Untyped)
           else Loaded (w1\<lparr>contacts := []\<rparr>)))"

subsection \<open>save\<close>

text \<open>
  What \<^verbatim>\<open>JSON.stringify\<close> sees of \<^verbatim>\<open>this.contacts\<close>: an array of objects with the own
  properties \<open>id\<close> and \<open>name\<close>, in this order.
\<close>

definition contact_json :: "contact \<Rightarrow> json" where
  "contact_json c = JObj [(''id'', JNum (ident c)), (''name'', JStr (name c))]"

definition contacts_json :: "contact list \<Rightarrow> json" where
  "contacts_json cs = JArr (map contact_json cs)"

definition save :: "write_outcome \<Rightarrow> world \<Rightarrow> unit result" where
  "save io w =
     (let w1 = w\<lparr>io_log := io_log w @ [WriteFile (contacts_json (contacts w))]\<rparr> in
      case io of
        WriteOk \<Rightarrow> (Inr (), w1\<lparr>backing := Content (contacts_json (contacts w))\<rparr>)
      | WriteFails error d \<Rightarrow> (Inl error, w1\<lparr>backing := d\<rparr>))"

subsection \<open>Reading the cache\<close>

text \<open>
  A JavaScript \<open>number\<close> as far as the program tells numbers apart: \<open>NaN\<close> or a whole number.
  \<open>strict_eq\<close> is \<open>===\<close> on numbers: \<open>NaN\<close> equals nothing.
\<close>

datatype number = NaN | Num int

fun strict_eq :: "number \<Rightarrow> number \<Rightarrow> bool" where
  "strict_eq (Num a) (Num b) = (a = b)"
| "strict_eq _ _ = False"

text \<open>\<^verbatim>\<open>this.contacts.find(contact => contact.id === id)\<close>; \<open>None\<close> is \<open>undefined\<close>.\<close>

definition getOneById :: "number \<Rightarrow> world \<Rightarrow> contact option" where
  "getOneById i w = find (\<lambda>contact. strict_eq (Num (ident contact)) i) (contacts w)"

text \<open>
  \<^verbatim>\<open>[...this.contacts]\<close>: as a value, the sequence of the cache. (The identity of the
  returned array and of the objects in it is the subject of the reference model below.)
\<close>

definition getAllContacts :: "world \<Rightarrow> contact list" where
  "getAllContacts w = contacts w"

subsection \<open>Mutations\<close>

text \<open>
  \<^verbatim>\<open>x + 1\<close> on an integer-valued double \<open>x\<close>, rounded to the nearest double, ties to the
  even significand. From \<open>-2^53\<close> up to \<open>2^53 - 1\<close> the sum is exact. From there up to
  \<open>2^54\<close> in absolute value the doubles are the even integers, \<open>x + 1\<close> lies half way
  between \<open>x\<close> and \<open>x + 2\<close>, and the one that is a multiple of 4 is taken. Beyond, the doubles
  are at least 4 apart and the sum rounds back to \<open>x\<close>.
  (\<open>9007199254740992\<close> is \<open>2^53\<close>, \<open>18014398509481984\<close> is \<open>2^54\<close>.)
\<close>

definition plus_one :: "int \<Rightarrow> int" where
  "plus_one x =
     (if - 9007199254740992 \<le> x \<and> x < 9007199254740992 then x + 1
      else if - 18014398509481984 \<le> x \<and> x < 18014398509481984
           then (if x mod 4 = 0 then x else x + 2)
      else x)"

text \<open>\<^verbatim>\<open>this.contacts.reduce((max, contact) => Math.max(max, contact.id), 0) + 1\<close>\<close>

definition generateNewId :: "world \<Rightarrow> int" where
  "generateNewId w =
     plus_one (foldl (\<lambda>mx contact. max mx (ident contact)) 0 (contacts w))"

text \<open>
  \<open>assign_id\<close> is the first statement of \<open>addContact\<close>: \<^verbatim>\<open>!newContact.id\<close> holds of \<open>0\<close>,
  \<^verbatim>\<open>this.contacts.some(c => c.id === newContact.id)\<close> is \<open>list_ex\<close>.
\<close>

definition assign_id :: "contact \<Rightarrow> world \<Rightarrow> contact" where
  "assign_id newContact w =
     (if ident newContact = 0 then newContact\<lparr>ident := generateNewId w\<rparr>
      else if list_ex (\<lambda>c. ident c = ident newContact) (contacts w)
           then newContact\<lparr>ident := generateNewId w\<rparr>
      else newContact)"

text \<open>
  \<open>addContact\<close> on values: the argument is an object that the cache does not hold yet (the
  dispatcher passes a \<^verbatim>\<open>new Contact\<close>). The source assigns the id to the object it is
  given and pushes that same object; what this does when the object is already in the cache
  is in the reference model below (\<open>addContact_ref\<close>).
\<close>

definition addContact :: "contact \<Rightarrow> write_outcome \<Rightarrow> world \<Rightarrow> unit result" where
  "addContact newContact io w =
     save io (w\<lparr>contacts := contacts w @ [assign_id newContact w]\<rparr>)"

text \<open>
  \<^verbatim>\<open>Partial<Contact>\<close>: each field present or not. \<open>merge\<close> is the object spread
  \<^verbatim>\<open>{ ...this.contacts[index], ...updates }\<close>.
\<close>

record updates =
  upd_id :: "int option"
  upd_name :: "string option"

definition merge :: "contact \<Rightarrow> updates \<Rightarrow> contact" where
  "merge c u =
     \<lparr>ident = (case upd_id u of Some i \<Rightarrow> i | None \<Rightarrow> ident c),
      name = (case upd_name u of Some s \<Rightarrow> s | None \<Rightarrow> name c)\<rparr>"

text \<open>\<^verbatim>\<open>findIndex\<close>: the first index whose element satisfies the test, \<open>None\<close> for \<open>-1\<close>.\<close>

fun findIndex :: "('a \<Rightarrow> bool) \<Rightarrow> 'a list \<Rightarrow> nat option" where
  "findIndex p [] = None"
| "findIndex p (x # xs) =
     (if p x then Some 0 else map_option Suc (findIndex p xs))"

definition updateContact :: "int \<Rightarrow> updates \<Rightarrow> write_outcome \<Rightarrow> world \<Rightarrow> unit result" where
  "updateContact i u io w =
     (case findIndex (\<lambda>contact. ident contact = i) (contacts w) of
        None \<Rightarrow> (Inl (NotFound i), w)
      | Some index \<Rightarrow>
          save io (w\<lparr>contacts := (contacts w)[index := merge (contacts w ! index) u]\<rparr>))"

definition deleteContact :: "int \<Rightarrow> write_outcome \<Rightarrow> world \<Rightarrow> unit result" where
  "deleteContact i io w =
     (let initialLength = length (contacts w);
          w1 = w\<lparr>contacts := filter (\<lambda>contact. ident contact \<noteq> i) (contacts w)\<rparr>
      in if length (contacts w1) = initialLength then (Inl (NotFound i), w1)
         else save io w1)"

subsection \<open>Sequences of mutations\<close>



text \<open>
  \<open>calls_generateNewId\<close>: the two tests of \<open>addContact\<close> under which the id comes from
  \<open>generateNewId\<close>. \<open>generated_ids\<close> issues the mutations in a row and collects, in order, the
  ids that \<open>generateNewId\<close> returned (only \<open>addContact\<close> calls it).
\<close>

definition calls_generateNewId :: "contact \<Rightarrow> world \<Rightarrow> bool" where
  "calls_generateNewId newContact w =
     (ident newContact = 0 \<or> list_ex (\<lambda>c. ident c = ident newContact) (contacts w))"




section \<open>The request dispatcher (class ContactsController)\<close>

text \<open>
  The values a parameter of the request can hold (\<^verbatim>\<open>[key: string]: any\<close>; the command line
  gives numbers, strings, booleans or nothing).
\<close>

datatype js_value =
    JsUndefined
  | JsNull
  | JsBoolean bool
  | JsNumber number
  | JsString string

record params =
  p_id :: js_value
  p_name :: js_value

record options =
  action :: js_value
  params :: params

text \<open>What \<open>processOptions\<close> resolves to: \<^verbatim>\<open>Contact[] | Contact | void\<close>; \<open>Nothing\<close> is \<open>undefined\<close>.\<close>

datatype response = Listing "contact list" | Single contact | Nothing

text \<open>
  \<^verbatim>\<open>String.prototype.trim\<close>: white space and line terminators are removed at both ends.
  Among the code units below 256 these are TAB, LF, VT, FF, CR, SP and NBSP.
\<close>

definition white_space :: "char \<Rightarrow> bool" where
  "white_space c = (of_char c \<in> {9, 10, 11, 12, 13, 32, 160 :: nat})"

definition trim :: "string \<Rightarrow> string" where
  "trim s = rev (dropWhile white_space (rev (dropWhile white_space s)))"

text \<open>\<^verbatim>\<open>init\<close> loads the collection.\<close>

definition init :: "world \<Rightarrow> load_outcome" where
  "init w = load w"

text \<open>
  \<open>params\<close> is an object, so \<^verbatim>\<open>!params\<close> is false. \<^verbatim>\<open>typeof params.id === 'number'\<close>
  holds of \<open>JsNumber\<close>, also of \<open>NaN\<close>; \<^verbatim>\<open>!isNaN(params.id)\<close> then excludes \<open>NaN\<close>.
\<close>

definition processOptions :: "options \<Rightarrow> write_outcome \<Rightarrow> world \<Rightarrow> response result" where
  "processOptions opts io w =
     (if action opts = JsString ''get'' then
        (case p_id (params opts) of
           JsNumber i \<Rightarrow>
             (case getOneById i w of
                None \<Rightarrow> (Inr Nothing, w)
              | Some contact \<Rightarrow> (Inr (Single contact), w))
         | _ \<Rightarrow> (Inr (Listing (getAllContacts w)), w))
      else if action opts = JsString ''save'' then
        (case p_name (params opts) of
           JsString nm \<Rightarrow>
             (if trim nm = [] then (Inl InvalidName, w)
              else
                let i = (case p_id (params opts) of JsNumber (Num n) \<Rightarrow> n | _ \<Rightarrow> 0);
                    newContact = \<lparr>ident = i, name = nm\<rparr>
                in case addContact newContact io w of
                     (Inl error, w') \<Rightarrow> (Inl error, w')
                   | (Inr u, w') \<Rightarrow> (Inr Nothing, w'))
         | _ \<Rightarrow> (Inl InvalidName, w))
      else (Inr Nothing, w))"

section \<open>Arrays and objects by reference\<close>

text \<open>
  Where the identity of an array or of a \<open>Contact\<close> object matters, the heap is explicit:
  the \<open>Contact\<close> objects and the arrays of references to them, each addressed by its index.
  \<open>lookup\<close> reads an address, \<open>None\<close> when nothing was allocated there.
\<close>

type_synonym ref = nat

record heap =
  objects :: "contact list"
  arrays :: "ref list list"

definition lookup :: "'a list \<Rightarrow> nat \<Rightarrow> 'a option" where
  "lookup xs i = (if i < length xs then Some (xs ! i) else None)"

text \<open>
  \<^verbatim>\<open>return [...this.contacts]\<close>, where \<open>this_contacts\<close> is the address held by the field:
  a new array is allocated, holding the same references. The result is the address of the
  new array and the heap (\<open>None\<close> if the field held no array, which does not happen).
\<close>

definition getAllContacts_ref :: "ref \<Rightarrow> heap \<Rightarrow> (ref \<times> heap) option" where
  "getAllContacts_ref this_contacts h =
     (case lookup (arrays h) this_contacts of
        None \<Rightarrow> None
      | Some elems \<Rightarrow> Some (length (arrays h), h\<lparr>arrays := arrays h @ [elems]\<rparr>))"

text \<open>The sequence of records seen through an array: each reference followed.\<close>

definition records_of :: "heap \<Rightarrow> ref \<Rightarrow> contact list option" where
  "records_of h a =
     (case lookup (arrays h) a of
        None \<Rightarrow> None
      | Some refs \<Rightarrow> those (map (lookup (objects h)) refs))"

text \<open>
  What a caller can do with a returned array: change the array itself (\<^verbatim>\<open>push\<close>,
  \<^verbatim>\<open>pop\<close>, \<^verbatim>\<open>splice\<close>, \<^verbatim>\<open>a[i] = r\<close>: array \<open>a\<close> then holds the references \<open>refs\<close>), or
  assign to the fields of a record in it (the object at \<open>r\<close> then holds \<open>c\<close>).
\<close>

definition array_assign :: "ref \<Rightarrow> ref list \<Rightarrow> heap \<Rightarrow> heap" where
  "array_assign a refs h = h\<lparr>arrays := (arrays h)[a := refs]\<rparr>"

definition object_assign :: "ref \<Rightarrow> contact \<Rightarrow> heap \<Rightarrow> heap" where
  "object_assign r c h = h\<lparr>objects := (objects h)[r := c]\<rparr>"

subsection \<open>The collection and the dispatcher by reference\<close>

text \<open>
  The state with the heap explicit: the field \<^verbatim>\<open>this.contacts\<close> holds the address of an
  array, the records are reached through it. \<open>world_of\<close> is the state as the value model
  sees it (\<open>None\<close> when an address is dangling, which does not happen).
\<close>

record rworld =
  mem :: heap
  contacts_field :: ref
  r_backing :: disk
  r_io_log :: "io_call list"

definition world_of :: "rworld \<Rightarrow> world option" where
  "world_of s =
     (case records_of (mem s) (contacts_field s) of
        None \<Rightarrow> None
      | Some cs \<Rightarrow> Some \<lparr>contacts = cs, backing = r_backing s, io_log = r_io_log s\<rparr>)"

text \<open>
  \<^verbatim>\<open>this.contacts.find(contact => contact.id === id)\<close> returns the object found itself:
  \<open>Some (Some r)\<close> its address, \<open>Some None\<close> for \<open>undefined\<close>.
\<close>

definition getOneById_ref :: "number \<Rightarrow> rworld \<Rightarrow> ref option option" where
  "getOneById_ref i s =
     (case lookup (arrays (mem s)) (contacts_field s) of
        None \<Rightarrow> None
      | Some refs \<Rightarrow>
          Some (find (\<lambda>r. case lookup (objects (mem s)) r of
                             None \<Rightarrow> False
                           | Some contact \<Rightarrow> strict_eq (Num (ident contact)) i) refs))"

text \<open>\<open>save\<close> serialises the records reached through the field.\<close>

definition save_ref :: "write_outcome \<Rightarrow> rworld \<Rightarrow> ((js_error + unit) \<times> rworld) option" where
  "save_ref io s =
     (case world_of s of
        None \<Rightarrow> None
      | Some w \<Rightarrow>
          (case save io w of
             (res, w') \<Rightarrow> Some (res, s\<lparr>r_backing := backing w', r_io_log := io_log w'\<rparr>)))"

text \<open>
  \<open>addContact\<close> on the object at the address \<open>newContact\<close>: the tests read the object and the
  cache, the id is assigned to that object (\<^verbatim>\<open>newContact.id = this.generateNewId()\<close>), and
  its address is pushed (\<^verbatim>\<open>this.contacts.push(newContact)\<close>).
\<close>

definition addContact_ref ::
  "ref \<Rightarrow> write_outcome \<Rightarrow> rworld \<Rightarrow> ((js_error + unit) \<times> rworld) option" where
  "addContact_ref newContact io s =
     (case world_of s of
        None \<Rightarrow> None
      | Some w \<Rightarrow>
          (case lookup (objects (mem s)) newContact of
             None \<Rightarrow> None
           | Some c \<Rightarrow>
               (case lookup (arrays (mem s)) (contacts_field s) of
                  None \<Rightarrow> None
                | Some refs \<Rightarrow>
                    save_ref io
                      (s\<lparr>mem := array_assign (contacts_field s) (refs @ [newContact])
                                  (object_assign newContact (assign_id c w) (mem s))\<rparr>))))"

text \<open>
  What \<open>processOptions\<close> resolves to, by reference: the address of an array, the address of
  a \<open>Contact\<close>, or \<open>undefined\<close>. \<open>response_of\<close> reads the value at the address.
\<close>

datatype response_ref = ListingAt ref | SingleAt ref | NothingAt

fun response_of :: "heap \<Rightarrow> response_ref \<Rightarrow> response option" where
  "response_of h (ListingAt a) = map_option Listing (records_of h a)"
| "response_of h (SingleAt r) = map_option Single (lookup (objects h) r)"
| "response_of h NothingAt = Some Nothing"

text \<open>
  \<open>processOptions\<close> by reference. The \<open>get\<close> action returns what \<open>getOneById\<close> or
  \<open>getAllContacts\<close> return; the \<open>save\<close> action allocates the \<^verbatim>\<open>new Contact(id, params.name)\<close>
  and passes its address to \<open>addContact\<close>.
\<close>

definition processOptions_ref ::
  "options \<Rightarrow> write_outcome \<Rightarrow> rworld \<Rightarrow> ((js_error + response_ref) \<times> rworld) option" where
  "processOptions_ref opts io s =
     (if action opts = JsString ''get'' then
        (case p_id (params opts) of
           JsNumber i \<Rightarrow>
             (case getOneById_ref i s of
                None \<Rightarrow> None
              | Some None \<Rightarrow> Some (Inr NothingAt, s)
              | Some (Some contact) \<Rightarrow> Some (Inr (SingleAt contact), s))
         | _ \<Rightarrow>
             (case getAllContacts_ref (contacts_field s) (mem s) of
                None \<Rightarrow> None
              | Some (a, h) \<Rightarrow> Some (Inr (ListingAt a), s\<lparr>mem := h\<rparr>)))
      else if action opts = JsString ''save'' then
        (case p_name (params opts) of
           JsString nm \<Rightarrow>
             (if trim nm = [] then Some (Inl InvalidName, s)
              else
                let i = (case p_id (params opts) of JsNumber (Num n) \<Rightarrow> n | _ \<Rightarrow> 0);
                    newContact = length (objects (mem s));
                    h = (mem s)\<lparr>objects := objects (mem s) @ [\<lparr>ident = i, name = nm\<rparr>]\<rparr>
                in case addContact_ref newContact io (s\<lparr>mem := h\<rparr>) of
                     None \<Rightarrow> None
                   | Some (Inl error, s') \<Rightarrow> Some (Inl error, s')
                   | Some (Inr u, s') \<Rightarrow> Some (Inr NothingAt, s'))
         | _ \<Rightarrow> Some (Inl InvalidName, s))
      else Some (Inr NothingAt, s))"

section \<open>Properties of the record store\<close>

subsection \<open>Id generation\<close>

text \<open>Adding 1 never goes down; a result below \<open>2^53\<close> is the exact sum.\<close>

lemma plus_one_exact:
  "- 9007199254740992 \<le> x \<Longrightarrow> x < 9007199254740992 \<Longrightarrow> plus_one x = x + 1"
  by (simp add: plus_one_def)

lemma plus_one_exact_nonneg:
  "0 \<le> x \<Longrightarrow> x < 9007199254740992 \<Longrightarrow> plus_one x = x + 1"
  by (simp add: plus_one_def)



text \<open>At \<open>2^53\<close> the sum rounds back: \<open>2^53 + 1\<close> is no double.\<close>

lemma plus_one_rounds: "plus_one 9007199254740992 = 9007199254740992"
  by (simp add: plus_one_def)

lemma Max_insert_max:
  fixes m a :: int
  assumes "finite S"
  shows "Max (insert (max m a) S) = Max (insert m (insert a S))"
proof (cases "S = {}")
  case True
  then show ?thesis by simp
next
  case False
  with assms show ?thesis by (simp add: max.assoc)
qed

lemma foldl_max_Max:
  "foldl (\<lambda>mx c. max mx (ident c)) m cs = Max (insert (m::int) (ident ` set cs))"
proof (induction cs arbitrary: m)
  case Nil
  then show ?case by simp
next
  case (Cons c cs)
  have "foldl (\<lambda>mx c. max mx (ident c)) m (c # cs) =
        Max (insert (max m (ident c)) (ident ` set cs))"
    using Cons.IH [of "max m (ident c)"] by simp
  also have "\<dots> = Max (insert m (insert (ident c) (ident ` set cs)))"
    by (rule Max_insert_max) simp
  finally show ?case by simp
qed

lemma generateNewId_Max:
  "generateNewId w = plus_one (Max (insert 0 (ident ` set (contacts w))))"
  by (simp add: generateNewId_def foldl_max_Max)

lemma Max_ids_nonneg: "0 \<le> Max (insert 0 (ident ` set (contacts w)))"
  by (intro Max_ge) auto

lemma Max_ids_ge:
  assumes "c \<in> set (contacts w)"
  shows "ident c \<le> Max (insert 0 (ident ` set (contacts w)))"
  using assms by (intro Max_ge) auto

lemma Max_ids_below:
  assumes "\<forall>c \<in> set (contacts w). ident c < 9007199254740992"
  shows "Max (insert 0 (ident ` set (contacts w))) < 9007199254740992"
  using assms by (subst Max_less_iff) auto

lemma generateNewId_spec:
  assumes "\<forall>c \<in> set (contacts w). ident c < 9007199254740992"
  shows "generateNewId w =
     (if contacts w = [] then 1 else max 0 (Max (ident ` set (contacts w))) + 1)"
proof -
  have "generateNewId w = Max (insert 0 (ident ` set (contacts w))) + 1"
    unfolding generateNewId_Max
    by (rule plus_one_exact_nonneg [OF Max_ids_nonneg Max_ids_below [OF assms]])
  then show ?thesis by simp
qed


lemma generateNewId_fresh_bounded:
  assumes "\<forall>c \<in> set (contacts w). ident c < 9007199254740992" and "c \<in> set (contacts w)"
  shows "ident c < generateNewId w"
proof -
  have "generateNewId w = Max (insert 0 (ident ` set (contacts w))) + 1"
    unfolding generateNewId_Max
    by (rule plus_one_exact_nonneg [OF Max_ids_nonneg Max_ids_below [OF assms(1)]])
  with Max_ids_ge [OF assms(2)] show ?thesis by simp
qed

lemma contacts_save [simp]: "contacts (snd (save io w)) = contacts w"
  by (cases io) (simp_all add: save_def)

lemma contacts_addContact:
  "contacts (snd (addContact c io w)) = contacts w @ [assign_id c w]"
  by (simp add: addContact_def)

subsection \<open>addContact\<close>

text \<open>
  \<open>addContact\<close> on values, in a collection whose ids are all below \<open>2^53\<close> (where adding 1
  to a number is exact): whatever the write does, one record is appended at the end of the
  sequence, with the name supplied. Its id is the supplied one unless that is zero or
  already present; then it is \<open>1\<close> for an empty collection and otherwise one more than the
  larger of \<open>0\<close> and the maximum id present.
\<close>

lemma addContact_values:
  assumes "\<forall>x \<in> set (contacts w). ident x < 9007199254740992"
  shows "contacts (snd (addContact c io w)) =
     contacts w @
       [c\<lparr>ident :=
            (if ident c = 0 \<or> ident c \<in> ident ` set (contacts w)
             then (if contacts w = [] then 1
                   else max 0 (Max (ident ` set (contacts w))) + 1)
             else ident c)\<rparr>]"
proof -
  have ex: "list_ex (\<lambda>x. ident x = ident c) (contacts w) \<longleftrightarrow>
            ident c \<in> ident ` set (contacts w)"
    by (auto simp: list_ex_iff intro: rev_image_eqI)
  show ?thesis
    unfolding contacts_addContact assign_id_def ex generateNewId_spec [OF assms] by simp
qed

text \<open>Scenario C of the specification: a second record asking for id 1 is stored with id 2.\<close>

lemma addContact_values_scenario_C:
  "contacts (snd (addContact \<lparr>ident = 1, name = ''Bob''\<rparr> WriteOk
      \<lparr>contacts = [\<lparr>ident = 1, name = ''Alice''\<rparr>], backing = Absent, io_log = []\<rparr>)) =
   [\<lparr>ident = 1, name = ''Alice''\<rparr>, \<lparr>ident = 2, name = ''Bob''\<rparr>]"
  using addContact_values [of
      "\<lparr>contacts = [\<lparr>ident = 1, name = ''Alice''\<rparr>], backing = Absent, io_log = []\<rparr>"
      "\<lparr>ident = 1, name = ''Bob''\<rparr>" WriteOk]
  by simp

text \<open>
  A negative id that is not yet present is kept by \<open>addContact\<close>, so a collection can hold
  negative ids only. The largest safe integer \<open>2^53 - 1\<close> is kept as well, and the id
  generated next is \<open>2^53\<close>.
\<close>

lemma negative_id_is_kept:
  "contacts (snd (addContact \<lparr>ident = - 5, name = ''a''\<rparr> WriteOk (new_collection Absent))) =
   [\<lparr>ident = - 5, name = ''a''\<rparr>]"
  by (simp add: addContact_def assign_id_def new_collection_def)

lemma largest_safe_id_is_kept:
  "contacts (snd (addContact \<lparr>ident = 0, name = ''b''\<rparr> WriteOk
     (snd (addContact \<lparr>ident = 9007199254740991, name = ''a''\<rparr> WriteOk
        (new_collection Absent))))) =
   [\<lparr>ident = 9007199254740991, name = ''a''\<rparr>, \<lparr>ident = 9007199254740992, name = ''b''\<rparr>]"
  by (simp add: addContact_def assign_id_def new_collection_def generateNewId_def plus_one_def)

text \<open>
  Claim C2 as stated fails in two states. The collection holds the one id \<open>-5\<close>: the
  maximum existing id plus one is \<open>-4\<close>, and the record added with id \<open>0\<close> is stored with
  id \<open>1\<close>. The collection holds the ids \<open>2^53 - 1\<close> and \<open>2^53\<close>: the record added with
  id \<open>0\<close> is stored with the id \<open>2^53\<close>, which is present, since \<open>2^53 + 1\<close> rounds to
  \<open>2^53\<close>.
\<close>

theorem addContact_max_plus_one_counterexample:
  "contacts (snd (addContact \<lparr>ident = 0, name = ''b''\<rparr> WriteOk
      \<lparr>contacts = [\<lparr>ident = - 5, name = ''a''\<rparr>], backing = Absent, io_log = []\<rparr>)) =
     [\<lparr>ident = - 5, name = ''a''\<rparr>, \<lparr>ident = 1, name = ''b''\<rparr>]
   \<and> Max (ident ` set [\<lparr>ident = - 5, name = ''a''\<rparr>]) + 1 = - 4
   \<and> contacts (snd (addContact \<lparr>ident = 0, name = ''c''\<rparr> WriteOk
      \<lparr>contacts = [\<lparr>ident = 9007199254740991, name = ''a''\<rparr>,
                   \<lparr>ident = 9007199254740992, name = ''b''\<rparr>],
        backing = Absent, io_log = []\<rparr>)) =
     [\<lparr>ident = 9007199254740991, name = ''a''\<rparr>, \<lparr>ident = 9007199254740992, name = ''b''\<rparr>,
      \<lparr>ident = 9007199254740992, name = ''c''\<rparr>]
   \<and> Max (ident ` set [\<lparr>ident = 9007199254740991, name = ''a''\<rparr>,
                         \<lparr>ident = 9007199254740992, name = ''b''\<rparr>]) + 1 = 9007199254740993"
  by (simp add: addContact_def assign_id_def generateNewId_def plus_one_def)

subsection \<open>load\<close>

text \<open>
  Claim C3. For every prior state: when the backing file is absent, \<open>load\<close> returns and the
  cache is empty; when the file exists and reading it fails (the read is refused, or the text
  is not JSON: any error whose code is not \<open>ENOENT\<close>), \<open>load\<close> throws that error and the
  state is the prior one, cache and file, with the read recorded.
\<close>

theorem load_absent_or_unreadable:
  "(backing w = Absent \<longrightarrow>
      load w = Loaded (w\<lparr>io_log := io_log w @ [ReadFile], contacts := []\<rparr>))
   \<and> (backing w = Unreadable e \<and> code e \<noteq> Some ''ENOENT'' \<longrightarrow>
      load w = Rejected e (w\<lparr>io_log := io_log w @ [ReadFile]\<rparr>))"
  by (simp add: load_def catch_load_def)

theorem load_absent_or_unreadable_witness:
  "load \<lparr>contacts = [\<lparr>ident = 1, name = ''Alice''\<rparr>], backing = Absent, io_log = []\<rparr> =
     Loaded \<lparr>contacts = [], backing = Absent, io_log = [ReadFile]\<rparr>
   \<and> load \<lparr>contacts = [\<lparr>ident = 1, name = ''Alice''\<rparr>], backing = Unreadable SyntaxError,
            io_log = []\<rparr> =
     Rejected SyntaxError
       \<lparr>contacts = [\<lparr>ident = 1, name = ''Alice''\<rparr>], backing = Unreadable SyntaxError,
        io_log = [ReadFile]\<rparr>"
  using
    load_absent_or_unreadable
      [of "\<lparr>contacts = [\<lparr>ident = 1, name = ''Alice''\<rparr>], backing = Absent, io_log = []\<rparr>"
          SyntaxError]
    load_absent_or_unreadable
      [of "\<lparr>contacts = [\<lparr>ident = 1, name = ''Alice''\<rparr>], backing = Unreadable SyntaxError,
            io_log = []\<rparr>" SyntaxError]
  by simp

text \<open>
  Whenever \<open>load\<close> throws, also on a \<open>null\<close> element of the array, the cache and the file are
  the prior ones.
\<close>

lemma load_Rejected_keeps:
  assumes "load w = Rejected e w'"
  shows "contacts w' = contacts w \<and> backing w' = backing w"
  using assms
  by (auto simp: load_def catch_load_def Let_def split: sum.splits if_splits option.splits)

lemma load_null_element:
  "load \<lparr>contacts = [\<lparr>ident = 1, name = ''Alice''\<rparr>],
         backing = Content (JArr [JObj [(''id'', JNum 2), (''name'', JStr ''Bob'')], JNull]),
         io_log = []\<rparr> =
   Rejected TypeError
     \<lparr>contacts = [\<lparr>ident = 1, name = ''Alice''\<rparr>],
      backing = Content (JArr [JObj [(''id'', JNum 2), (''name'', JStr ''Bob'')], JNull]),
      io_log = [ReadFile]\<rparr>"
  by (simp add: load_def catch_load_def)

text \<open>
  An array with an element that is neither \<open>null\<close> nor an object with a numeric id and a string
  name: the source returns normally, with a record that the typed model does not hold.
\<close>

lemma load_ill_typed_element:
  "load (new_collection (Content (JArr [JNum 1]))) = Untyped"
  by (simp add: load_def new_collection_def)

text \<open>
  Claim C10. When the backing file holds a JSON value that is not an array, \<open>load\<close> returns
  without an error and the cache is empty, whatever the file held and whatever the cache
  held before.
\<close>

theorem load_not_an_array:
  assumes "backing w = Content data" and "\<not> isArray data"
  shows "load w = Loaded (w\<lparr>io_log := io_log w @ [ReadFile], contacts := []\<rparr>)"
  using assms by (simp add: load_def)

theorem load_not_an_array_witness:
  "load \<lparr>contacts = [\<lparr>ident = 1, name = ''Alice''\<rparr>],
         backing = Content (JObj [(''id'', JNum 7), (''name'', JStr ''Eve'')]), io_log = []\<rparr> =
   Loaded \<lparr>contacts = [], backing = Content (JObj [(''id'', JNum 7), (''name'', JStr ''Eve'')]),
           io_log = [ReadFile]\<rparr>"
  using load_not_an_array [of "\<lparr>contacts = [\<lparr>ident = 1, name = ''Alice''\<rparr>],
         backing = Content (JObj [(''id'', JNum 7), (''name'', JStr ''Eve'')]), io_log = []\<rparr>"
         "JObj [(''id'', JNum 7), (''name'', JStr ''Eve'')]"]
  by simp

subsection \<open>save, then load\<close>

lemma new_Contact_of_contact_json [simp]: "new_Contact_of (contact_json c) = Typed c"
  by (simp add: contact_json_def)

lemma map_items_contact_json [simp]: "map_items (map contact_json cs) = Some (Inr cs)"
  by (induction cs) simp_all

text \<open>
  Claim C6. For every sequence of records in the cache: a \<open>save\<close> whose write succeeds
  returns, and \<open>load\<close> on a new collection over the file it wrote returns with a cache equal
  to the saved sequence, each record with its id and name, in the same order.
\<close>

theorem save_load_round_trip:
  "save WriteOk w =
     (Inr (), w\<lparr>io_log := io_log w @ [WriteFile (contacts_json (contacts w))],
                backing := Content (contacts_json (contacts w))\<rparr>)
   \<and> load (new_collection (backing (snd (save WriteOk w)))) =
     Loaded \<lparr>contacts = contacts w, backing = Content (contacts_json (contacts w)),
             io_log = [ReadFile]\<rparr>"
  by (simp add: save_def load_def new_collection_def contacts_json_def)

theorem save_load_round_trip_witness:
  "load (new_collection (backing (snd (save WriteOk
      \<lparr>contacts = [\<lparr>ident = 2, name = ''Bob''\<rparr>, \<lparr>ident = 1, name = ''Alice''\<rparr>],
        backing = Absent, io_log = []\<rparr>)))) =
   Loaded \<lparr>contacts = [\<lparr>ident = 2, name = ''Bob''\<rparr>, \<lparr>ident = 1, name = ''Alice''\<rparr>],
     backing = Content (JArr [JObj [(''id'', JNum 2), (''name'', JStr ''Bob'')],
                              JObj [(''id'', JNum 1), (''name'', JStr ''Alice'')]]),
     io_log = [ReadFile]\<rparr>"
  using save_load_round_trip
    [of "\<lparr>contacts = [\<lparr>ident = 2, name = ''Bob''\<rparr>, \<lparr>ident = 1, name = ''Alice''\<rparr>],
          backing = Absent, io_log = []\<rparr>"]
  by (simp add: contacts_json_def contact_json_def save_def)

subsection \<open>updateContact and deleteContact on an absent id\<close>

lemma findIndex_None: "findIndex p xs = None \<longleftrightarrow> (\<forall>x \<in> set xs. \<not> p x)"
  by (induction xs) auto

lemma filter_keeps_all: "(\<forall>x \<in> set xs. p x) \<Longrightarrow> filter p xs = xs"
  by (induction xs) auto

text \<open>
  Claim C4. For an id that no record of the collection has, \<open>updateContact\<close> and
  \<open>deleteContact\<close> throw the not-found error, and the state after is the state before: the
  same cache, the same file, and no file operation issued, whatever a write would have done.
\<close>

theorem absent_id_NotFound:
  assumes "i \<notin> ident ` set (contacts w)"
  shows "updateContact i u io w = (Inl (NotFound i), w)
       \<and> deleteContact i io w = (Inl (NotFound i), w)"
proof
  have "findIndex (\<lambda>contact. ident contact = i) (contacts w) = None"
    using assms by (auto simp: findIndex_None)
  then show "updateContact i u io w = (Inl (NotFound i), w)"
    by (simp add: updateContact_def)
next
  have "filter (\<lambda>contact. ident contact \<noteq> i) (contacts w) = contacts w"
    using assms by (intro filter_keeps_all) auto
  then show "deleteContact i io w = (Inl (NotFound i), w)"
    by (simp add: deleteContact_def)
qed

theorem absent_id_NotFound_witness:
  "updateContact 2 \<lparr>upd_id = None, upd_name = Some ''Bob''\<rparr> WriteOk
     \<lparr>contacts = [\<lparr>ident = 1, name = ''Alice''\<rparr>], backing = Absent, io_log = []\<rparr> =
     (Inl (NotFound 2),
      \<lparr>contacts = [\<lparr>ident = 1, name = ''Alice''\<rparr>], backing = Absent, io_log = []\<rparr>)
   \<and> deleteContact 2 WriteOk
     \<lparr>contacts = [\<lparr>ident = 1, name = ''Alice''\<rparr>], backing = Absent, io_log = []\<rparr> =
     (Inl (NotFound 2),
      \<lparr>contacts = [\<lparr>ident = 1, name = ''Alice''\<rparr>], backing = Absent, io_log = []\<rparr>)"
  using absent_id_NotFound
    [of 2 "\<lparr>contacts = [\<lparr>ident = 1, name = ''Alice''\<rparr>], backing = Absent, io_log = []\<rparr>"
        "\<lparr>upd_id = None, upd_name = Some ''Bob''\<rparr>" WriteOk]
  by simp

section \<open>Properties of the request dispatcher\<close>

subsection \<open>The save action\<close>

text \<open>A name is blank after trimming exactly when it consists of white space only.\<close>

lemma trim_blank: "trim s = [] \<longleftrightarrow> (\<forall>c \<in> set s. white_space c)"
proof
  assume "trim s = []"
  then have all: "\<forall>c \<in> set (dropWhile white_space s). white_space c"
    by (simp add: trim_def dropWhile_eq_Nil_conv)
  have "dropWhile white_space s = []"
  proof (rule ccontr)
    assume ne: "dropWhile white_space s \<noteq> []"
    then have "\<not> white_space (hd (dropWhile white_space s))"
      by (rule hd_dropWhile)
    with ne all show False by simp
  qed
  then show "\<forall>c \<in> set s. white_space c"
    by (simp add: dropWhile_eq_Nil_conv)
next
  assume "\<forall>c \<in> set s. white_space c"
  then have "dropWhile white_space s = []"
    by (simp add: dropWhile_eq_Nil_conv)
  then show "trim s = []"
    unfolding trim_def by (simp only: rev.simps dropWhile.simps)
qed

text \<open>
  Claim C5. For the action \<open>save\<close> and a parameter bag whose \<open>name\<close> is missing, is not a
  string, or is a string that is blank after trimming, \<open>processOptions\<close> throws the
  invalid-name error and the state after is the state before: the collection was not
  called, the cache and the file are untouched and no file operation was issued.
\<close>

theorem save_rejects_invalid_name:
  assumes "action opts = JsString ''save''"
    and "\<forall>s. p_name (params opts) = JsString s \<longrightarrow> trim s = []"
  shows "processOptions opts io w = (Inl InvalidName, w)"
  using assms by (simp add: processOptions_def split: js_value.splits)

text \<open>Scenario F of the specification: the name consists of two spaces.\<close>

theorem save_rejects_invalid_name_witness:
  "processOptions
     \<lparr>action = JsString ''save'', params = \<lparr>p_id = JsUndefined, p_name = JsString ''  ''\<rparr>\<rparr>
     WriteOk \<lparr>contacts = [\<lparr>ident = 1, name = ''Alice''\<rparr>], backing = Absent, io_log = []\<rparr> =
   (Inl InvalidName,
    \<lparr>contacts = [\<lparr>ident = 1, name = ''Alice''\<rparr>], backing = Absent, io_log = []\<rparr>)"
  using save_rejects_invalid_name
    [of "\<lparr>action = JsString ''save'',
          params = \<lparr>p_id = JsUndefined, p_name = JsString ''  ''\<rparr>\<rparr>"
        WriteOk "\<lparr>contacts = [\<lparr>ident = 1, name = ''Alice''\<rparr>], backing = Absent, io_log = []\<rparr>"]
  by (simp add: trim_def white_space_def)

text \<open>A name that is not blank is stored as supplied (it is tested trimmed, not stored trimmed).\<close>

lemma save_accepts_name:
  "processOptions
     \<lparr>action = JsString ''save'', params = \<lparr>p_id = JsUndefined, p_name = JsString '' Al ''\<rparr>\<rparr>
     WriteOk (new_collection Absent) =
   (Inr Nothing, \<lparr>contacts = [\<lparr>ident = 1, name = '' Al ''\<rparr>],
       backing = Content (JArr [JObj [(''id'', JNum 1), (''name'', JStr '' Al '')]]),
       io_log = [WriteFile (JArr [JObj [(''id'', JNum 1), (''name'', JStr '' Al '')]])]\<rparr>)"
  by (simp add: processOptions_def trim_def white_space_def addContact_def assign_id_def
      generateNewId_def plus_one_def save_def new_collection_def contacts_json_def
      contact_json_def)

subsection \<open>The get action\<close>

lemma find_strict_eq_Num:
  "find (\<lambda>contact. strict_eq (Num (ident contact)) (Num i)) cs =
   find (\<lambda>contact. ident contact = i) cs"
  by (induction cs) simp_all

lemma find_Some_first:
  "i \<in> ident ` set cs \<Longrightarrow>
   \<exists>c. find (\<lambda>contact. ident contact = i) cs = Some c \<and> c \<in> set cs \<and> ident c = i"
  by (induction cs) auto

text \<open>
  The \<open>get\<close> action on values, in every state and with no change of the state: with a
  numeric \<open>id\<close> parameter that some record has, the result is the first record of the
  sequence with that id; with a numeric \<open>id\<close> parameter that no record has (\<open>NaN\<close>
  included), the result is \<open>undefined\<close> and nothing is thrown; with an \<open>id\<close> parameter
  that is not a number, or none, the result is the sequence of all records. (Which array
  and which objects are returned is in the reference model below.)
\<close>

lemma processOptions_get:
  assumes "action opts = JsString ''get''"
  shows "(p_id (params opts) = JsNumber (Num i) \<and> i \<in> ident ` set (contacts w) \<longrightarrow>
            (\<exists>c. processOptions opts io w = (Inr (Single c), w)
                \<and> c \<in> set (contacts w) \<and> ident c = i
                \<and> find (\<lambda>contact. ident contact = i) (contacts w) = Some c))
       \<and> (p_id (params opts) = JsNumber n \<and> (\<forall>c \<in> set (contacts w). Num (ident c) \<noteq> n) \<longrightarrow>
            processOptions opts io w = (Inr Nothing, w))
       \<and> ((\<forall>m. p_id (params opts) \<noteq> JsNumber m) \<longrightarrow>
            processOptions opts io w = (Inr (Listing (contacts w)), w))"
proof (intro conjI impI)
  assume a: "p_id (params opts) = JsNumber (Num i) \<and> i \<in> ident ` set (contacts w)"
  then obtain c where c: "find (\<lambda>contact. ident contact = i) (contacts w) = Some c"
      "c \<in> set (contacts w)" "ident c = i"
    using find_Some_first by blast
  with a assms have "processOptions opts io w = (Inr (Single c), w)"
    by (simp add: processOptions_def getOneById_def find_strict_eq_Num)
  with c show "\<exists>c. processOptions opts io w = (Inr (Single c), w)
                \<and> c \<in> set (contacts w) \<and> ident c = i
                \<and> find (\<lambda>contact. ident contact = i) (contacts w) = Some c"
    by blast
next
  assume a: "p_id (params opts) = JsNumber n \<and> (\<forall>c \<in> set (contacts w). Num (ident c) \<noteq> n)"
  have "find (\<lambda>contact. strict_eq (Num (ident contact)) n) (contacts w) = None"
  proof (cases n)
    case NaN
    then show ?thesis by (simp add: find_None_iff)
  next
    case (Num j)
    with a show ?thesis by (auto simp: find_None_iff)
  qed
  with a assms show "processOptions opts io w = (Inr Nothing, w)"
    by (simp add: processOptions_def getOneById_def)
next
  assume "\<forall>m. p_id (params opts) \<noteq> JsNumber m"
  with assms show "processOptions opts io w = (Inr (Listing (contacts w)), w)"
    by (simp add: processOptions_def getAllContacts_def split: js_value.splits)
qed

section \<open>Sequences of calls\<close>

subsection \<open>The ids present\<close>

lemma ident_assign_id:
  "ident (assign_id c w) = (if calls_generateNewId c w then generateNewId w else ident c)"
  by (simp add: assign_id_def calls_generateNewId_def)

lemma findIndex_Some:
  "findIndex p xs = Some i \<Longrightarrow> i < length xs \<and> p (xs ! i)"
proof (induction xs arbitrary: i)
  case Nil
  then show ?case by simp
next
  case (Cons x xs)
  then show ?case by (auto split: if_splits)
qed

lemma contacts_deleteContact:
  "contacts (snd (deleteContact i io w)) = filter (\<lambda>contact. ident contact \<noteq> i) (contacts w)"
  by (simp add: deleteContact_def Let_def)

lemma updateContact_keeps_ids:
  assumes "upd_id u = None"
  shows "map ident (contacts (snd (updateContact i u io w))) = map ident (contacts w)"
proof (cases "findIndex (\<lambda>contact. ident contact = i) (contacts w)")
  case None
  then show ?thesis by (simp add: updateContact_def)
next
  case (Some index)
  then have "index < length (contacts w)" by (simp add: findIndex_Some)
  moreover have "ident (merge (contacts w ! index) u) = ident (contacts w ! index)"
    using assms by (simp add: merge_def)
  ultimately have "map ident ((contacts w)[index := merge (contacts w ! index) u]) =
      (map ident (contacts w))[index := map ident (contacts w) ! index]"
    by (simp add: map_update)
  then have "map ident ((contacts w)[index := merge (contacts w ! index) u]) =
      map ident (contacts w)"
    by (simp only: list_update_id)
  with Some show ?thesis by (simp add: updateContact_def)
qed


subsection \<open>Generated ids\<close>






subsection \<open>Distinct ids\<close>

text \<open>
  The ids of the cache stay pairwise distinct under \<open>addContact\<close> of a record object that the
  cache does not hold yet, as long as the ids present are below \<open>2^53\<close>; under
  \<open>deleteContact\<close>; and under \<open>updateContact\<close> when the update supplies no id.
\<close>

lemma addContact_distinct:
  assumes "distinct (map ident (contacts w))"
    and "\<forall>x \<in> set (contacts w). ident x < 9007199254740992"
  shows "distinct (map ident (contacts (snd (addContact c io w))))"
proof -
  have "ident (assign_id c w) \<notin> ident ` set (contacts w)"
  proof (cases "calls_generateNewId c w")
    case True
    then have "ident (assign_id c w) = generateNewId w" by (simp add: ident_assign_id)
    then show ?thesis using generateNewId_fresh_bounded [OF assms(2)] by force
  next
    case False
    then show ?thesis
      by (auto simp: ident_assign_id calls_generateNewId_def list_ex_iff)
  qed
  with assms(1) show ?thesis by (simp add: contacts_addContact)
qed

lemma deleteContact_distinct:
  assumes "distinct (map ident (contacts w))"
  shows "distinct (map ident (contacts (snd (deleteContact i io w))))"
  using assms by (simp add: contacts_deleteContact distinct_map_filter)

lemma updateContact_distinct:
  assumes "distinct (map ident (contacts w))" and "upd_id u = None"
  shows "distinct (map ident (contacts (snd (updateContact i u io w))))"
  using assms by (simp add: updateContact_keeps_ids)

text \<open>
  Claim C1 at the input where the code departs from it. The cache holds the ids 1 and 2;
  \<^verbatim>\<open>updateContact(1, { id: 2 })\<close> finds the record, spreads the update over it and saves:
  it returns normally, and the cache and the file hold two records with the id 2.
  \<open>addContact\<close> tests a supplied id against the ids present; \<open>updateContact\<close> does not.
\<close>

theorem updateContact_duplicates_id:
  "distinct (map ident [\<lparr>ident = 1, name = ''Alice''\<rparr>, \<lparr>ident = 2, name = ''Bob''\<rparr>])
   \<and> updateContact 1 \<lparr>upd_id = Some 2, upd_name = None\<rparr> WriteOk
       \<lparr>contacts = [\<lparr>ident = 1, name = ''Alice''\<rparr>, \<lparr>ident = 2, name = ''Bob''\<rparr>],
        backing = Absent, io_log = []\<rparr> =
     (Inr (),
      \<lparr>contacts = [\<lparr>ident = 2, name = ''Alice''\<rparr>, \<lparr>ident = 2, name = ''Bob''\<rparr>],
       backing = Content (JArr [JObj [(''id'', JNum 2), (''name'', JStr ''Alice'')],
                                JObj [(''id'', JNum 2), (''name'', JStr ''Bob'')]]),
       io_log = [WriteFile (JArr [JObj [(''id'', JNum 2), (''name'', JStr ''Alice'')],
                                  JObj [(''id'', JNum 2), (''name'', JStr ''Bob'')]])]\<rparr>)
   \<and> \<not> distinct (map ident [\<lparr>ident = 2, name = ''Alice''\<rparr>, \<lparr>ident = 2, name = ''Bob''\<rparr>])"
  by (simp add: updateContact_def merge_def save_def contacts_json_def contact_json_def)

section \<open>Properties of the reference model\<close>

subsection \<open>getAllContacts\<close>

lemma lookup_append_old [simp]: "a < length xs \<Longrightarrow> lookup (xs @ ys) a = lookup xs a"
  by (simp add: lookup_def nth_append)

lemma lookup_append_new [simp]: "lookup (xs @ [y]) (length xs) = Some y"
  by (simp add: lookup_def)

lemma lookup_Some_less: "lookup xs a = Some y \<Longrightarrow> a < length xs"
  by (simp add: lookup_def split: if_splits)

lemma lookup_update_other [simp]: "a \<noteq> b \<Longrightarrow> lookup (xs[b := y]) a = lookup xs a"
  by (simp add: lookup_def)

text \<open>\<open>getAllContacts\<close> returns whenever the field holds an array.\<close>

lemma getAllContacts_ref_returns:
  assumes "this < length (arrays h)"
  shows "getAllContacts_ref this h =
    Some (length (arrays h), h\<lparr>arrays := arrays h @ [arrays h ! this]\<rparr>)"
  using assms by (simp add: getAllContacts_ref_def lookup_def)

lemma getAllContacts_ref_Some:
  assumes "getAllContacts_ref this h = Some (a, h')"
  shows "a = length (arrays h)" and "this < a" and "objects h' = objects h"
    and "length (arrays h') = Suc (length (arrays h))"
    and "lookup (arrays h') a = lookup (arrays h) this"
    and "\<And>b. b < length (arrays h) \<Longrightarrow> lookup (arrays h') b = lookup (arrays h) b"
  using assms
  by (auto simp: getAllContacts_ref_def split: option.splits dest: lookup_Some_less)

lemma records_of_copy:
  assumes "getAllContacts_ref this h = Some (a, h')"
  shows "records_of h' a = records_of h this" and "records_of h' this = records_of h this"
    and "\<And>b. b < length (arrays h) \<Longrightarrow> records_of h' b = records_of h b"
  using getAllContacts_ref_Some [OF assms] by (simp_all add: records_of_def split: option.splits)

lemma records_of_array_assign:
  "a \<noteq> b \<Longrightarrow> records_of (array_assign b refs h) a = records_of h a"
  by (simp add: records_of_def array_assign_def split: option.splits)

text \<open>
  Two calls of \<open>getAllContacts\<close> in a row return two new arrays, different from each other
  and from the array of the collection, through which the same sequence of records is seen
  as through the array of the collection. Changing one of the returned arrays (to any
  sequence of references) changes neither what is seen through the other returned array nor
  what is seen through the array of the collection.
\<close>

lemma getAllContacts_copies:
  assumes "getAllContacts_ref this h = Some (a1, h1)"
    and "getAllContacts_ref this h1 = Some (a2, h2)"
  shows "records_of h2 a1 = records_of h this \<and> records_of h2 a2 = records_of h this
     \<and> records_of h2 this = records_of h this
     \<and> a1 \<noteq> a2 \<and> a1 \<noteq> this \<and> a2 \<noteq> this
     \<and> records_of (array_assign a1 refs h2) a2 = records_of h2 a2
     \<and> records_of (array_assign a1 refs h2) this = records_of h2 this
     \<and> records_of (array_assign a2 refs h2) a1 = records_of h2 a1
     \<and> records_of (array_assign a2 refs h2) this = records_of h2 this"
proof -
  note f1 = getAllContacts_ref_Some [OF assms(1)]
  note f2 = getAllContacts_ref_Some [OF assms(2)]
  have ne: "a1 \<noteq> a2" "a1 \<noteq> this" "a2 \<noteq> this"
    using f1(1,2,4) f2(1,2) by simp_all
  have a1: "a1 < length (arrays h1)" using f1(1,4) by simp
  have "records_of h2 a1 = records_of h1 a1"
    using records_of_copy(3) [OF assms(2) a1] .
  then have r1: "records_of h2 a1 = records_of h this"
    using records_of_copy(1) [OF assms(1)] by simp
  have r2: "records_of h2 a2 = records_of h this"
    using records_of_copy(1) [OF assms(2)] records_of_copy(2) [OF assms(1)] by simp
  have r3: "records_of h2 this = records_of h this"
    using records_of_copy(2) [OF assms(2)] records_of_copy(2) [OF assms(1)] by simp
  from ne r1 r2 r3 show ?thesis
    by (simp add: records_of_array_assign)
qed

text \<open>The returned array holds the references that the array of the collection holds.\<close>

lemma getAllContacts_ref_shares:
  assumes "getAllContacts_ref this h = Some (a, h')"
  shows "lookup (arrays h') a = lookup (arrays h') this"
  using getAllContacts_ref_Some [OF assms] by simp

text \<open>
  Claim C7 at the input where the code departs from it. The collection holds one record.
  \<open>getAllContacts\<close> is called twice (the arrays 1 and 2 are returned; array 0 is the array
  of the collection), and the caller assigns to the name of the first record of the first
  returned array, which holds the reference 0. The records inside a returned array are the
  objects of the collection itself: the record seen through the array of the collection and
  through the second returned array has the new name.
\<close>

theorem getAllContacts_shares_records:
  "getAllContacts_ref 0 \<lparr>objects = [\<lparr>ident = 1, name = ''Alice''\<rparr>], arrays = [[0]]\<rparr> =
     Some (1, \<lparr>objects = [\<lparr>ident = 1, name = ''Alice''\<rparr>], arrays = [[0], [0]]\<rparr>)
   \<and> getAllContacts_ref 0 \<lparr>objects = [\<lparr>ident = 1, name = ''Alice''\<rparr>], arrays = [[0], [0]]\<rparr> =
     Some (2, \<lparr>objects = [\<lparr>ident = 1, name = ''Alice''\<rparr>], arrays = [[0], [0], [0]]\<rparr>)
   \<and> lookup (arrays \<lparr>objects = [\<lparr>ident = 1, name = ''Alice''\<rparr>], arrays = [[0], [0], [0]]\<rparr>) 1 =
       Some [0]
   \<and> records_of \<lparr>objects = [\<lparr>ident = 1, name = ''Alice''\<rparr>], arrays = [[0], [0], [0]]\<rparr> 0 =
       Some [\<lparr>ident = 1, name = ''Alice''\<rparr>]
   \<and> records_of (object_assign 0 \<lparr>ident = 1, name = ''Mallory''\<rparr>
         \<lparr>objects = [\<lparr>ident = 1, name = ''Alice''\<rparr>], arrays = [[0], [0], [0]]\<rparr>) 0 =
       Some [\<lparr>ident = 1, name = ''Mallory''\<rparr>]
   \<and> records_of (object_assign 0 \<lparr>ident = 1, name = ''Mallory''\<rparr>
         \<lparr>objects = [\<lparr>ident = 1, name = ''Alice''\<rparr>], arrays = [[0], [0], [0]]\<rparr>) 2 =
       Some [\<lparr>ident = 1, name = ''Mallory''\<rparr>]"
  by (simp add: getAllContacts_ref_def lookup_def records_of_def object_assign_def)

subsection \<open>The get action by reference\<close>

lemma world_of_Some:
  assumes "world_of s = Some w"
  obtains refs where "lookup (arrays (mem s)) (contacts_field s) = Some refs"
    and "those (map (lookup (objects (mem s))) refs) = Some (contacts w)"
    and "backing w = r_backing s" and "io_log w = r_io_log s"
  using assms by (auto simp: world_of_def records_of_def split: option.splits)

text \<open>Searching the references for a record is searching the records.\<close>

lemma find_through_refs:
  assumes "those (map f refs) = Some cs"
  shows "case find (\<lambda>r. case f r of None \<Rightarrow> False | Some c \<Rightarrow> P c) refs of
           None \<Rightarrow> find P cs = None
         | Some r \<Rightarrow> r \<in> set refs \<and> (\<exists>c. f r = Some c \<and> find P cs = Some c)"
  using assms
proof (induction refs arbitrary: cs)
  case Nil
  then show ?case by simp
next
  case (Cons r refs)
  from Cons.prems obtain c cs' where c: "f r = Some c" "those (map f refs) = Some cs'"
      "cs = c # cs'"
    by (auto split: option.splits)
  show ?case
  proof (cases "P c")
    case True
    with c show ?thesis by simp
  next
    case False
    with c Cons.IH [OF c(2)] show ?thesis by (auto split: option.splits)
  qed
qed

lemma getOneById_ref_found:
  assumes "world_of s = Some w"
    and "find (\<lambda>contact. strict_eq (Num (ident contact)) n) (contacts w) = Some c"
  shows "\<exists>r. getOneById_ref n s = Some (Some r) \<and> lookup (objects (mem s)) r = Some c"
proof -
  from assms(1) obtain refs where refs: "lookup (arrays (mem s)) (contacts_field s) = Some refs"
      "those (map (lookup (objects (mem s))) refs) = Some (contacts w)"
    by (rule world_of_Some)
  from find_through_refs [OF refs(2), of "\<lambda>contact. strict_eq (Num (ident contact)) n"] assms(2)
  obtain r where "find (\<lambda>r. case lookup (objects (mem s)) r of None \<Rightarrow> False
        | Some contact \<Rightarrow> strict_eq (Num (ident contact)) n) refs = Some r"
      "lookup (objects (mem s)) r = Some c"
    by (auto split: option.splits)
  with refs(1) show ?thesis by (simp add: getOneById_ref_def)
qed

lemma getOneById_ref_absent:
  assumes "world_of s = Some w"
    and "find (\<lambda>contact. strict_eq (Num (ident contact)) n) (contacts w) = None"
  shows "getOneById_ref n s = Some None"
proof -
  from assms(1) obtain refs where refs: "lookup (arrays (mem s)) (contacts_field s) = Some refs"
      "those (map (lookup (objects (mem s))) refs) = Some (contacts w)"
    by (rule world_of_Some)
  from find_through_refs [OF refs(2), of "\<lambda>contact. strict_eq (Num (ident contact)) n"] assms(2)
  have "find (\<lambda>r. case lookup (objects (mem s)) r of None \<Rightarrow> False
        | Some contact \<Rightarrow> strict_eq (Num (ident contact)) n) refs = None"
    by (auto split: option.splits)
  with refs(1) show ?thesis by (simp add: getOneById_ref_def)
qed

text \<open>
  Claim C8. For the action \<open>get\<close>, in every state of the collection: with a numeric \<open>id\<close>
  parameter that some record has, the result is one record of the collection with that id
  (the first one in the sequence; the object of the collection itself) and the state is
  unchanged; with a numeric \<open>id\<close> parameter that no record has (\<open>NaN\<close> included), the
  result is \<open>undefined\<close>, nothing is thrown and the state is unchanged; with an \<open>id\<close>
  parameter that is not a number, or none, the result is a copy of the full listing: an
  array that did not exist before, other than the array of the collection, holding the same
  references and so showing the same records, and nothing else in the state has changed.
\<close>

theorem get_by_id_or_listing:
  assumes "action opts = JsString ''get''" and "world_of s = Some w"
  shows "(p_id (params opts) = JsNumber (Num i) \<and> i \<in> ident ` set (contacts w) \<longrightarrow>
            (\<exists>r c. processOptions_ref opts io s = Some (Inr (SingleAt r), s)
                \<and> lookup (objects (mem s)) r = Some c
                \<and> c \<in> set (contacts w) \<and> ident c = i
                \<and> find (\<lambda>contact. ident contact = i) (contacts w) = Some c))
       \<and> (p_id (params opts) = JsNumber n \<and> (\<forall>c \<in> set (contacts w). Num (ident c) \<noteq> n) \<longrightarrow>
            processOptions_ref opts io s = Some (Inr NothingAt, s))
       \<and> ((\<forall>m. p_id (params opts) \<noteq> JsNumber m) \<longrightarrow>
            (\<exists>a refs.
                processOptions_ref opts io s =
                  Some (Inr (ListingAt a),
                        s\<lparr>mem := (mem s)\<lparr>arrays := arrays (mem s) @ [refs]\<rparr>\<rparr>)
                \<and> lookup (arrays (mem s)) (contacts_field s) = Some refs
                \<and> a = length (arrays (mem s)) \<and> lookup (arrays (mem s)) a = None
                \<and> a \<noteq> contacts_field s
                \<and> records_of ((mem s)\<lparr>arrays := arrays (mem s) @ [refs]\<rparr>) a = Some (contacts w)
                \<and> world_of (s\<lparr>mem := (mem s)\<lparr>arrays := arrays (mem s) @ [refs]\<rparr>\<rparr>) = Some w))"
proof (intro conjI impI)
  assume a: "p_id (params opts) = JsNumber (Num i) \<and> i \<in> ident ` set (contacts w)"
  then obtain c where c: "find (\<lambda>contact. ident contact = i) (contacts w) = Some c"
      "c \<in> set (contacts w)" "ident c = i"
    using find_Some_first by blast
  then have "find (\<lambda>contact. strict_eq (Num (ident contact)) (Num i)) (contacts w) = Some c"
    by (simp add: find_strict_eq_Num)
  from getOneById_ref_found [OF assms(2) this]
  obtain r where r: "getOneById_ref (Num i) s = Some (Some r)"
      "lookup (objects (mem s)) r = Some c"
    by blast
  with a assms(1) have "processOptions_ref opts io s = Some (Inr (SingleAt r), s)"
    by (simp add: processOptions_ref_def)
  with c r(2)
  show "\<exists>r c. processOptions_ref opts io s = Some (Inr (SingleAt r), s)
                \<and> lookup (objects (mem s)) r = Some c
                \<and> c \<in> set (contacts w) \<and> ident c = i
                \<and> find (\<lambda>contact. ident contact = i) (contacts w) = Some c"
    by blast
next
  assume a: "p_id (params opts) = JsNumber n \<and> (\<forall>c \<in> set (contacts w). Num (ident c) \<noteq> n)"
  have "find (\<lambda>contact. strict_eq (Num (ident contact)) n) (contacts w) = None"
  proof (cases n)
    case NaN
    then show ?thesis by (simp add: find_None_iff)
  next
    case (Num j)
    with a show ?thesis by (auto simp: find_None_iff)
  qed
  from getOneById_ref_absent [OF assms(2) this] a assms(1)
  show "processOptions_ref opts io s = Some (Inr NothingAt, s)"
    by (simp add: processOptions_ref_def)
next
  assume a: "\<forall>m. p_id (params opts) \<noteq> JsNumber m"
  from assms(2) obtain refs where refs:
      "lookup (arrays (mem s)) (contacts_field s) = Some refs"
      "those (map (lookup (objects (mem s))) refs) = Some (contacts w)"
      "backing w = r_backing s" "io_log w = r_io_log s"
    by (rule world_of_Some)
  let ?a = "length (arrays (mem s))"
  let ?h = "(mem s)\<lparr>arrays := arrays (mem s) @ [refs]\<rparr>"
  have less: "contacts_field s < ?a"
    using refs(1) by (rule lookup_Some_less)
  have get: "getAllContacts_ref (contacts_field s) (mem s) = Some (?a, ?h)"
    using refs(1) by (simp add: getAllContacts_ref_def)
  with a assms(1) have "processOptions_ref opts io s = Some (Inr (ListingAt ?a), s\<lparr>mem := ?h\<rparr>)"
    by (simp add: processOptions_ref_def split: js_value.splits)
  moreover have "lookup (arrays (mem s)) ?a = None"
    by (simp add: lookup_def)
  moreover have "?a \<noteq> contacts_field s"
    using less by simp
  moreover have "records_of ?h ?a = Some (contacts w)"
    using refs(2) by (simp add: records_of_def)
  moreover have "world_of (s\<lparr>mem := ?h\<rparr>) = Some w"
    using refs less by (simp add: world_of_def records_of_def)
  ultimately
  show "\<exists>a refs.
                processOptions_ref opts io s =
                  Some (Inr (ListingAt a),
                        s\<lparr>mem := (mem s)\<lparr>arrays := arrays (mem s) @ [refs]\<rparr>\<rparr>)
                \<and> lookup (arrays (mem s)) (contacts_field s) = Some refs
                \<and> a = length (arrays (mem s)) \<and> lookup (arrays (mem s)) a = None
                \<and> a \<noteq> contacts_field s
                \<and> records_of ((mem s)\<lparr>arrays := arrays (mem s) @ [refs]\<rparr>) a = Some (contacts w)
                \<and> world_of (s\<lparr>mem := (mem s)\<lparr>arrays := arrays (mem s) @ [refs]\<rparr>\<rparr>) = Some w"
    using refs(1) by blast
qed

theorem get_by_id_or_listing_witness:
  "processOptions_ref
     \<lparr>action = JsString ''get'', params = \<lparr>p_id = JsNumber (Num 2), p_name = JsUndefined\<rparr>\<rparr>
     WriteOk
     \<lparr>mem = \<lparr>objects = [\<lparr>ident = 1, name = ''Alice''\<rparr>, \<lparr>ident = 2, name = ''Bob''\<rparr>],
              arrays = [[0, 1]]\<rparr>,
      contacts_field = 0, r_backing = Absent, r_io_log = []\<rparr> =
     Some (Inr (SingleAt 1),
       \<lparr>mem = \<lparr>objects = [\<lparr>ident = 1, name = ''Alice''\<rparr>, \<lparr>ident = 2, name = ''Bob''\<rparr>],
                arrays = [[0, 1]]\<rparr>,
        contacts_field = 0, r_backing = Absent, r_io_log = []\<rparr>)
   \<and> processOptions_ref
     \<lparr>action = JsString ''get'', params = \<lparr>p_id = JsNumber (Num 7), p_name = JsUndefined\<rparr>\<rparr>
     WriteOk
     \<lparr>mem = \<lparr>objects = [\<lparr>ident = 1, name = ''Alice''\<rparr>, \<lparr>ident = 2, name = ''Bob''\<rparr>],
              arrays = [[0, 1]]\<rparr>,
      contacts_field = 0, r_backing = Absent, r_io_log = []\<rparr> =
     Some (Inr NothingAt,
       \<lparr>mem = \<lparr>objects = [\<lparr>ident = 1, name = ''Alice''\<rparr>, \<lparr>ident = 2, name = ''Bob''\<rparr>],
                arrays = [[0, 1]]\<rparr>,
        contacts_field = 0, r_backing = Absent, r_io_log = []\<rparr>)
   \<and> processOptions_ref
     \<lparr>action = JsString ''get'', params = \<lparr>p_id = JsUndefined, p_name = JsUndefined\<rparr>\<rparr>
     WriteOk
     \<lparr>mem = \<lparr>objects = [\<lparr>ident = 1, name = ''Alice''\<rparr>, \<lparr>ident = 2, name = ''Bob''\<rparr>],
              arrays = [[0, 1]]\<rparr>,
      contacts_field = 0, r_backing = Absent, r_io_log = []\<rparr> =
     Some (Inr (ListingAt 1),
       \<lparr>mem = \<lparr>objects = [\<lparr>ident = 1, name = ''Alice''\<rparr>, \<lparr>ident = 2, name = ''Bob''\<rparr>],
                arrays = [[0, 1], [0, 1]]\<rparr>,
        contacts_field = 0, r_backing = Absent, r_io_log = []\<rparr>)"
  using
    get_by_id_or_listing [where opts =
        "\<lparr>action = JsString ''get'', params = \<lparr>p_id = JsNumber (Num 2), p_name = JsUndefined\<rparr>\<rparr>"
      and s = "\<lparr>mem = \<lparr>objects = [\<lparr>ident = 1, name = ''Alice''\<rparr>, \<lparr>ident = 2, name = ''Bob''\<rparr>],
              arrays = [[0, 1]]\<rparr>, contacts_field = 0, r_backing = Absent, r_io_log = []\<rparr>"
      and w = "\<lparr>contacts = [\<lparr>ident = 1, name = ''Alice''\<rparr>, \<lparr>ident = 2, name = ''Bob''\<rparr>],
              backing = Absent, io_log = []\<rparr>"
      and i = 2 and n = "Num 2" and io = WriteOk]
    get_by_id_or_listing [where opts =
        "\<lparr>action = JsString ''get'', params = \<lparr>p_id = JsNumber (Num 7), p_name = JsUndefined\<rparr>\<rparr>"
      and s = "\<lparr>mem = \<lparr>objects = [\<lparr>ident = 1, name = ''Alice''\<rparr>, \<lparr>ident = 2, name = ''Bob''\<rparr>],
              arrays = [[0, 1]]\<rparr>, contacts_field = 0, r_backing = Absent, r_io_log = []\<rparr>"
      and w = "\<lparr>contacts = [\<lparr>ident = 1, name = ''Alice''\<rparr>, \<lparr>ident = 2, name = ''Bob''\<rparr>],
              backing = Absent, io_log = []\<rparr>"
      and i = 7 and n = "Num 7" and io = WriteOk]
    get_by_id_or_listing [where opts =
        "\<lparr>action = JsString ''get'', params = \<lparr>p_id = JsUndefined, p_name = JsUndefined\<rparr>\<rparr>"
      and s = "\<lparr>mem = \<lparr>objects = [\<lparr>ident = 1, name = ''Alice''\<rparr>, \<lparr>ident = 2, name = ''Bob''\<rparr>],
              arrays = [[0, 1]]\<rparr>, contacts_field = 0, r_backing = Absent, r_io_log = []\<rparr>"
      and w = "\<lparr>contacts = [\<lparr>ident = 1, name = ''Alice''\<rparr>, \<lparr>ident = 2, name = ''Bob''\<rparr>],
              backing = Absent, io_log = []\<rparr>"
      and i = 0 and n = NaN and io = WriteOk]
  by (simp add: world_of_def records_of_def lookup_def processOptions_ref_def
      getOneById_ref_def getAllContacts_ref_def)

subsection \<open>addContact by reference\<close>

text \<open>
  When the object passed is one that the cache already holds (the caller got it from
  \<open>getOneById\<close>), the id is assigned to that object and its address is pushed a second
  time: the cache and the file hold the same record twice.
\<close>

lemma addContact_ref_of_held_object:
  "addContact_ref 0 WriteOk
     \<lparr>mem = \<lparr>objects = [\<lparr>ident = 1, name = ''Alice''\<rparr>], arrays = [[0]]\<rparr>,
      contacts_field = 0, r_backing = Absent, r_io_log = []\<rparr> =
   Some (Inr (),
     \<lparr>mem = \<lparr>objects = [\<lparr>ident = 2, name = ''Alice''\<rparr>], arrays = [[0, 0]]\<rparr>,
      contacts_field = 0,
      r_backing = Content (JArr [JObj [(''id'', JNum 2), (''name'', JStr ''Alice'')],
                                 JObj [(''id'', JNum 2), (''name'', JStr ''Alice'')]]),
      r_io_log = [WriteFile (JArr [JObj [(''id'', JNum 2), (''name'', JStr ''Alice'')],
                                   JObj [(''id'', JNum 2), (''name'', JStr ''Alice'')]])]\<rparr>)"
  by (simp add: addContact_ref_def world_of_def records_of_def lookup_def assign_id_def
      generateNewId_def plus_one_def array_assign_def object_assign_def save_ref_def save_def
      contacts_json_def contact_json_def)

lemma those_snoc:
  "those (xs @ [Some y]) = map_option (\<lambda>ys. ys @ [y]) (those xs)"
  by (induction xs) (auto split: option.splits simp: option.map_comp comp_def)

lemma those_map_cong:
  assumes "\<And>x. x \<in> set xs \<Longrightarrow> f x = g x"
  shows "those (map f xs) = those (map g xs)"
proof -
  have "map f xs = map g xs" using assms by (rule map_cong [OF refl])
  then show ?thesis by (rule arg_cong)
qed

lemma those_map_Some_all:
  "those (map f xs) = Some ys \<Longrightarrow> x \<in> set xs \<Longrightarrow> f x \<noteq> None"
  by (induction xs arbitrary: ys) (auto split: option.splits)

lemma save_ref_refines:
  assumes "world_of s = Some w"
  shows "\<exists>s'. save_ref io s = Some (fst (save io w), s') \<and> world_of s' = Some (snd (save io w))
           \<and> mem s' = mem s"
proof -
  obtain res w' where sv: "save io w = (res, w')" by (cases "save io w")
  then have "contacts w' = contacts w"
    using contacts_save [of io w] by simp
  with assms sv show ?thesis
    by (auto simp: save_ref_def world_of_def split: option.splits)
qed

text \<open>
  When the object passed is not in the cache, \<open>addContact\<close> by reference does what
  \<open>addContact\<close> on values does.
\<close>

lemma addContact_ref_refines:
  assumes w: "world_of s = Some w"
    and c: "lookup (objects (mem s)) r = Some c"
    and refs: "lookup (arrays (mem s)) (contacts_field s) = Some refs"
    and fresh: "r \<notin> set refs"
  shows "\<exists>s'. addContact_ref r io s = Some (fst (addContact c io w), s')
           \<and> world_of s' = Some (snd (addContact c io w))"
proof -
  let ?c' = "assign_id c w"
  let ?h = "array_assign (contacts_field s) (refs @ [r]) (object_assign r ?c' (mem s))"
  let ?w2 = "w\<lparr>contacts := contacts w @ [?c']\<rparr>"
  from w refs have cs: "those (map (lookup (objects (mem s))) refs) = Some (contacts w)"
    by (auto simp: world_of_def records_of_def split: option.splits)
  have r: "r < length (objects (mem s))" using c by (rule lookup_Some_less)
  have a: "contacts_field s < length (arrays (mem s))" using refs by (rule lookup_Some_less)
  have "lookup ((objects (mem s))[r := ?c']) x = lookup (objects (mem s)) x"
    if "x \<in> set refs" for x
  proof -
    from that fresh have "x \<noteq> r" by blast
    then show ?thesis by simp
  qed
  then have "those (map (lookup ((objects (mem s))[r := ?c'])) refs) =
      those (map (lookup (objects (mem s))) refs)"
    by (rule those_map_cong)
  with cs have "those (map (lookup ((objects (mem s))[r := ?c'])) refs) = Some (contacts w)"
    by (simp only:)
  moreover have "lookup ((objects (mem s))[r := ?c']) r = Some ?c'"
    using r by (simp add: lookup_def)
  ultimately have "those (map (lookup ((objects (mem s))[r := ?c'])) (refs @ [r])) =
      Some (contacts w @ [?c'])"
    by (simp add: those_snoc)
  then have "records_of ?h (contacts_field s) = Some (contacts w @ [?c'])"
    using a by (simp add: records_of_def array_assign_def object_assign_def lookup_def)
  with w have w2: "world_of (s\<lparr>mem := ?h\<rparr>) = Some ?w2"
    by (auto simp: world_of_def split: option.splits)
  from save_ref_refines [OF w2, of io]
  obtain s' where "save_ref io (s\<lparr>mem := ?h\<rparr>) = Some (fst (save io ?w2), s')"
      "world_of s' = Some (snd (save io ?w2))"
    by blast
  with w c refs show ?thesis
    by (simp add: addContact_ref_def addContact_def)
qed

lemma those_map_Some_ex:
  "(\<And>x. x \<in> set xs \<Longrightarrow> f x \<noteq> None) \<Longrightarrow> \<exists>ys. those (map f xs) = Some ys"
proof (induction xs)
  case Nil
  then show ?case by simp
next
  case (Cons a xs)
  then obtain ys where "those (map f xs) = Some ys" by auto
  moreover obtain y where "f a = Some y" using Cons.prems [of a] by auto
  ultimately show ?case by simp
qed

lemma save_ref_returns:
  assumes "world_of s = Some w"
  shows "\<exists>res s'. save_ref io s = Some (res, s') \<and> mem s' = mem s
           \<and> contacts_field s' = contacts_field s"
proof -
  obtain res w' where "save io w = (res, w')" by (cases "save io w")
  with assms show ?thesis by (simp add: save_ref_def)
qed

text \<open>
  Claim C2, as the code has it. In every state of a collection whose ids are all below
  \<open>2^53\<close> (where adding 1 to a number is exact), and for every record object passed, in the
  cache already or not: whatever the write does, \<open>addContact\<close> returns or throws with the
  reference to that object pushed at the end of the array of the collection. The object
  keeps its name; its id is the supplied one unless that is zero or already present, and
  then it is \<open>1\<close> for an empty collection and otherwise one more than the larger of \<open>0\<close>
  and the maximum id present (which is the maximum id present whenever some id present is
  not negative). No other object is changed.
\<close>

theorem addContact_assigns_id:
  assumes w: "world_of s = Some w"
    and c: "lookup (objects (mem s)) r = Some c"
    and below: "\<forall>x \<in> set (contacts w). ident x < 9007199254740992"
  shows "\<exists>res s' refs. addContact_ref r io s = Some (res, s')
       \<and> lookup (arrays (mem s)) (contacts_field s) = Some refs
       \<and> lookup (arrays (mem s')) (contacts_field s') = Some (refs @ [r])
       \<and> lookup (objects (mem s')) r =
           Some (c\<lparr>ident :=
                  (if ident c = 0 \<or> ident c \<in> ident ` set (contacts w)
                   then (if contacts w = [] then 1
                         else max 0 (Max (ident ` set (contacts w))) + 1)
                   else ident c)\<rparr>)
       \<and> (\<forall>x. x \<noteq> r \<longrightarrow> lookup (objects (mem s')) x = lookup (objects (mem s)) x)
       \<and> contacts_field s' = contacts_field s"
proof -
  from w obtain refs where refs: "lookup (arrays (mem s)) (contacts_field s) = Some refs"
      "those (map (lookup (objects (mem s))) refs) = Some (contacts w)"
    by (rule world_of_Some)
  let ?c' = "assign_id c w"
  let ?h = "array_assign (contacts_field s) (refs @ [r]) (object_assign r ?c' (mem s))"
  have ex: "list_ex (\<lambda>x. ident x = ident c) (contacts w) \<longleftrightarrow>
            ident c \<in> ident ` set (contacts w)"
    by (auto simp: list_ex_iff intro: rev_image_eqI)
  have c': "?c' = c\<lparr>ident :=
                  (if ident c = 0 \<or> ident c \<in> ident ` set (contacts w)
                   then (if contacts w = [] then 1
                         else max 0 (Max (ident ` set (contacts w))) + 1)
                   else ident c)\<rparr>"
    unfolding assign_id_def ex generateNewId_spec [OF below] by simp
  have r: "r < length (objects (mem s))" using c by (rule lookup_Some_less)
  have a: "contacts_field s < length (arrays (mem s))" using refs(1) by (rule lookup_Some_less)
  have "lookup ((objects (mem s))[r := ?c']) x \<noteq> None" if "x \<in> set (refs @ [r])" for x
  proof -
    have "lookup (objects (mem s)) x \<noteq> None"
      using that those_map_Some_all [OF refs(2)] c by auto
    then show ?thesis by (simp add: lookup_def split: if_splits)
  qed
  then obtain cs where "those (map (lookup ((objects (mem s))[r := ?c'])) (refs @ [r])) = Some cs"
    using those_map_Some_ex by blast
  then have "records_of ?h (contacts_field s) = Some cs"
    using a by (simp add: records_of_def array_assign_def object_assign_def lookup_def)
  then have "world_of (s\<lparr>mem := ?h\<rparr>) =
      Some \<lparr>contacts = cs, backing = r_backing s, io_log = r_io_log s\<rparr>"
    by (simp add: world_of_def)
  from save_ref_returns [OF this, of io]
  obtain res s' where s': "save_ref io (s\<lparr>mem := ?h\<rparr>) = Some (res, s')" "mem s' = ?h"
      "contacts_field s' = contacts_field s"
    by auto
  then have "addContact_ref r io s = Some (res, s')"
    using w c refs(1) by (simp add: addContact_ref_def)
  moreover have "lookup (arrays ?h) (contacts_field s) = Some (refs @ [r])"
    using a by (simp add: array_assign_def object_assign_def lookup_def)
  moreover have "lookup (objects ?h) r = Some ?c'"
    using r by (simp add: array_assign_def object_assign_def lookup_def)
  moreover have "\<forall>x. x \<noteq> r \<longrightarrow> lookup (objects ?h) x = lookup (objects (mem s)) x"
    by (simp add: array_assign_def object_assign_def)
  ultimately show ?thesis
    using refs(1) s'(2,3) c' by auto
qed

theorem addContact_assigns_id_witness:
  "addContact_ref 1 WriteOk
     \<lparr>mem = \<lparr>objects = [\<lparr>ident = 1, name = ''Alice''\<rparr>, \<lparr>ident = 1, name = ''Bob''\<rparr>],
              arrays = [[0]]\<rparr>,
      contacts_field = 0, r_backing = Absent, r_io_log = []\<rparr> =
   Some (Inr (),
     \<lparr>mem = \<lparr>objects = [\<lparr>ident = 1, name = ''Alice''\<rparr>, \<lparr>ident = 2, name = ''Bob''\<rparr>],
              arrays = [[0, 1]]\<rparr>,
      contacts_field = 0,
      r_backing = Content (JArr [JObj [(''id'', JNum 1), (''name'', JStr ''Alice'')],
                                 JObj [(''id'', JNum 2), (''name'', JStr ''Bob'')]]),
      r_io_log = [WriteFile (JArr [JObj [(''id'', JNum 1), (''name'', JStr ''Alice'')],
                                   JObj [(''id'', JNum 2), (''name'', JStr ''Bob'')]])]\<rparr>)"
  using addContact_assigns_id [where r = 1 and io = WriteOk
    and s = "\<lparr>mem = \<lparr>objects = [\<lparr>ident = 1, name = ''Alice''\<rparr>, \<lparr>ident = 1, name = ''Bob''\<rparr>],
              arrays = [[0]]\<rparr>, contacts_field = 0, r_backing = Absent, r_io_log = []\<rparr>"
    and w = "\<lparr>contacts = [\<lparr>ident = 1, name = ''Alice''\<rparr>], backing = Absent, io_log = []\<rparr>"
    and c = "\<lparr>ident = 1, name = ''Bob''\<rparr>"]
  by (simp add: addContact_ref_def world_of_def records_of_def lookup_def assign_id_def
      generateNewId_def plus_one_def array_assign_def object_assign_def save_ref_def save_def
      contacts_json_def contact_json_def)

subsection \<open>The dispatcher by reference and on values\<close>

text \<open>
  The dispatcher passes a \<^verbatim>\<open>new Contact\<close> to \<open>addContact\<close>, so on every request
  \<open>processOptions\<close> by reference returns normally or throws as \<open>processOptions\<close> on values
  does, with the state and the result that the value model gives.
\<close>

lemma processOptions_ref_refines:
  assumes w: "world_of s = Some w"
  shows "\<exists>res s'. processOptions_ref opts io s = Some (res, s')
           \<and> world_of s' = Some (snd (processOptions opts io w))
           \<and> (case res of
                 Inl e \<Rightarrow> fst (processOptions opts io w) = Inl e
               | Inr r \<Rightarrow> map_option Inr (response_of (mem s') r) =
                            Some (fst (processOptions opts io w)))"
proof -
  from w obtain refs where refs: "lookup (arrays (mem s)) (contacts_field s) = Some refs"
      "those (map (lookup (objects (mem s))) refs) = Some (contacts w)"
    and fl: "backing w = r_backing s" "io_log w = r_io_log s"
    by (rule world_of_Some)
  consider (get_id) n where "action opts = JsString ''get''" "p_id (params opts) = JsNumber n"
    | (get_all) "action opts = JsString ''get''" "\<forall>m. p_id (params opts) \<noteq> JsNumber m"
    | (save_bad) "action opts = JsString ''save''"
        "\<forall>nm. p_name (params opts) = JsString nm \<longrightarrow> trim nm = []"
    | (save_ok) nm where "action opts = JsString ''save''" "p_name (params opts) = JsString nm"
        "trim nm \<noteq> []"
    | (other) "action opts \<noteq> JsString ''get''" "action opts \<noteq> JsString ''save''"
    by (cases "p_id (params opts)"; cases "p_name (params opts)") auto
  then show ?thesis
  proof cases
    case get_id
    show ?thesis
    proof (cases "find (\<lambda>contact. strict_eq (Num (ident contact)) n) (contacts w)")
      case None
      from getOneById_ref_absent [OF w None] None get_id w show ?thesis
        by (simp add: processOptions_ref_def processOptions_def getOneById_def)
    next
      case (Some c)
      from getOneById_ref_found [OF w Some] obtain r where
        "getOneById_ref n s = Some (Some r)" "lookup (objects (mem s)) r = Some c"
        by blast
      with Some get_id w show ?thesis
        by (simp add: processOptions_ref_def processOptions_def getOneById_def)
    qed
  next
    case get_all
    let ?h = "(mem s)\<lparr>arrays := arrays (mem s) @ [refs]\<rparr>"
    have less: "contacts_field s < length (arrays (mem s))"
      using refs(1) by (rule lookup_Some_less)
    have "getAllContacts_ref (contacts_field s) (mem s) = Some (length (arrays (mem s)), ?h)"
      using refs(1) by (simp add: getAllContacts_ref_def)
    moreover have "records_of ?h (length (arrays (mem s))) = Some (contacts w)"
      using refs(2) by (simp add: records_of_def)
    moreover have "world_of (s\<lparr>mem := ?h\<rparr>) = Some w"
      using refs less w by (simp add: world_of_def records_of_def)
    ultimately show ?thesis using get_all
      by (simp add: processOptions_ref_def processOptions_def getAllContacts_def
          split: js_value.splits)
  next
    case save_bad
    with w show ?thesis
      by (simp add: processOptions_ref_def processOptions_def split: js_value.splits)
  next
    case save_ok
    define i where "i = (case p_id (params opts) of JsNumber (Num n) \<Rightarrow> n | _ \<Rightarrow> 0)"
    define c where "c = \<lparr>ident = i, name = nm\<rparr>"
    define r where "r = length (objects (mem s))"
    define s1 where "s1 = s\<lparr>mem := (mem s)\<lparr>objects := objects (mem s) @ [c]\<rparr>\<rparr>"
    have old: "lookup (objects (mem s) @ [c]) x = lookup (objects (mem s)) x"
      if "x \<in> set refs" for x
    proof -
      from those_map_Some_all [OF refs(2) that]
      obtain y where "lookup (objects (mem s)) x = Some y" by blast
      then have "x < length (objects (mem s))" by (rule lookup_Some_less)
      then show ?thesis by simp
    qed
    then have "those (map (lookup (objects (mem s) @ [c])) refs) =
        those (map (lookup (objects (mem s))) refs)"
      by (rule those_map_cong)
    with refs(2) have "those (map (lookup (objects (mem s) @ [c])) refs) = Some (contacts w)"
      by (simp only:)
    with refs(1) have w1: "world_of s1 = Some w"
      by (simp add: s1_def world_of_def records_of_def fl [symmetric])
    have c1: "lookup (objects (mem s1)) r = Some c"
      by (simp add: s1_def r_def)
    have refs1: "lookup (arrays (mem s1)) (contacts_field s1) = Some refs"
      using refs(1) by (simp add: s1_def)
    have fresh: "r \<notin> set refs"
    proof
      assume "r \<in> set refs"
      from those_map_Some_all [OF refs(2) this]
      obtain y where "lookup (objects (mem s)) r = Some y" by blast
      then have "r < length (objects (mem s))" by (rule lookup_Some_less)
      then show False by (simp add: r_def)
    qed
    from addContact_ref_refines [OF w1 c1 refs1 fresh, of io]
    obtain s' where s': "addContact_ref r io s1 = Some (fst (addContact c io w), s')"
        "world_of s' = Some (snd (addContact c io w))"
      by blast
    have ref: "processOptions_ref opts io s =
        (case addContact_ref r io s1 of
           None \<Rightarrow> None
         | Some (Inl error, s') \<Rightarrow> Some (Inl error, s')
         | Some (Inr u, s') \<Rightarrow> Some (Inr NothingAt, s'))"
      using save_ok by (simp add: processOptions_ref_def Let_def i_def c_def r_def s1_def)
    have val: "processOptions opts io w =
        (case addContact c io w of
           (Inl error, w') \<Rightarrow> (Inl error, w')
         | (Inr u, w') \<Rightarrow> (Inr Nothing, w'))"
      using save_ok by (simp add: processOptions_def Let_def i_def c_def)
    show ?thesis
    proof (cases "addContact c io w")
      case (Pair res w')
      with s' ref val show ?thesis
        by (cases res) simp_all
    qed
  next
    case other
    with w show ?thesis
      by (simp add: processOptions_ref_def processOptions_def)
  qed
qed

end
